theory Spec2Isabelle
  imports Complex_Main "HOL-Library.Sublist"
begin

text \<open>
  A shallow embedding of the core of VisionVault, a video ingestion and search
  service: the adaptive cutoff of the search results, the alignment of transcript
  segments with frame captions, the identifiers and collection names of the networked
  vector store, and the ingestion pipeline with its cancellation flag.  The
  definitions come first, each next to the source it embeds; the properties follow.
\<close>

section \<open>Python helpers used by the embedded functions\<close>

text \<open>
  Python floats are modelled as exact rationals (\<open>rat\<close>): the embedding abstracts from
  IEEE rounding, NaN and infinities.  Python's unbounded \<open>int\<close> is \<open>int\<close>.
\<close>

text \<open>\<open>xs[:n]\<close>: a negative stop counts from the end of the list.\<close>

definition py_prefix :: "'a list \<Rightarrow> int \<Rightarrow> 'a list" where
  "py_prefix xs n =
     (if 0 \<le> n then take (nat n) xs else take (nat (int (length xs) + n)) xs)"

section \<open>Adaptive cutoff (\<open>search._filter_hits\<close> in processing/pipeline.py)\<close>

text \<open>
  A hit is a dictionary; the cutoff reads only its keys \<open>rerank_score\<close> and \<open>score\<close>
  (\<open>None\<close>: the key is absent).  Everything else the dictionary holds is \<open>payload\<close>.
\<close>

record 'p hit =
  payload :: 'p
  score :: "rat option"
  rerank_score :: "rat option"

text \<open>The environment settings MIN_HIT_SCORE, RELATIVE_MIN, DROPOFF_GAP, MIN_RETURN_HITS.\<close>

record cutoff_params =
  min_score :: rat
  relative_min :: rat
  dropoff_gap :: rat
  min_return_hits :: int

definition default_params :: cutoff_params where
  "default_params =
     \<lparr>min_score = 0, relative_min = 90 / 100, dropoff_gap = 8 / 100, min_return_hits = 1\<rparr>"

text \<open>\<open>float(h.get("rerank_score", h.get("score", 0.0)) or 0.0)\<close>\<close>

definition effective_score :: "'p hit \<Rightarrow> rat" where
  "effective_score h =
     (case rerank_score h of
        Some r \<Rightarrow> r
      | None \<Rightarrow> (case score h of Some s \<Rightarrow> s | None \<Rightarrow> 0))"

text \<open>
  The \<open>for h, s in zip(hits_in, scores)\<close> loop, with the loop variables \<open>out\<close> and
  \<open>prev\<close> as accumulators.  \<open>continue\<close> is the recursive call on the rest with the
  accumulators unchanged, \<open>break\<close> returns \<open>out\<close>.
\<close>

fun accumulate ::
  "cutoff_params \<Rightarrow> rat \<Rightarrow> int \<Rightarrow> ('p hit \<times> rat) list \<Rightarrow> 'p hit list \<Rightarrow> rat \<Rightarrow> 'p hit list"
where
  "accumulate P best k [] out prev = out"
| "accumulate P best k ((h, s) # rest) out prev =
     (if s < min_score P then accumulate P best k rest out prev
      else if s < best * relative_min P then out
      else if dropoff_gap P \<le> prev - s then out
      else (let out' = out @ [h]
            in if k \<le> int (length out') then out'
               else accumulate P best k rest out' s))"

definition filter_hits :: "cutoff_params \<Rightarrow> 'p hit list \<Rightarrow> int \<Rightarrow> 'p hit list" where
  "filter_hits P hits_in k =
     (if hits_in = [] then []
      else
        let scores = map effective_score hits_in;
            best = hd scores
        in if best \<le> 0 then py_prefix hits_in (min k (max (min_return_hits P) 0))
           else
             let out = accumulate P best k (zip hits_in scores) [] best
             in if int (length out) < min_return_hits P
                then py_prefix hits_in (min k (max (min_return_hits P) 0))
                else out)"


section \<open>Chunk alignment (processing/chunking.py)\<close>

text \<open>
  Strings are ASCII byte strings.  \<open>str.strip()\<close> removes the characters for which
  \<open>str.isspace()\<close> holds: tab, line feed, vertical tab, form feed, carriage return,
  the separators \<open>0x1c\<close> to \<open>0x1f\<close>, and space.
\<close>

definition is_py_space :: "char \<Rightarrow> bool" where
  "is_py_space c =
     (let n = (of_char c :: nat) in (9 \<le> n \<and> n \<le> 13) \<or> (28 \<le> n \<and> n \<le> 32))"

definition py_strip :: "string \<Rightarrow> string" where
  "py_strip s = rev (dropWhile is_py_space (rev (dropWhile is_py_space s)))"

text \<open>\<open>sep.join(xs)\<close>\<close>

fun py_join :: "string \<Rightarrow> string list \<Rightarrow> string" where
  "py_join sep [] = []"
| "py_join sep [x] = x"
| "py_join sep (x # y # ys) = x @ sep @ py_join sep (y # ys)"

text \<open>
  A transcript segment \<open>{"start", "end", "text"}\<close>; \<open>seg_text = None\<close> stands for a
  missing or \<open>None\<close> text, which \<open>seg.get("text") or ""\<close> turns into the empty string.
\<close>

record segment =
  seg_start :: rat
  seg_end :: rat
  seg_text :: "string option"

text \<open>A frame description \<open>{"frame_file", "timestamp", "caption"}\<close>.\<close>

record frame_desc =
  fd_frame_file :: string
  fd_timestamp :: rat
  fd_caption :: string

text \<open>The dataclass \<open>Chunk\<close> and its property \<open>text\<close>.\<close>

record chunk =
  video_id :: string
  c_start :: rat
  c_end :: rat
  transcript :: string
  caption :: string
  frame_file :: string

definition chunk_text :: "chunk \<Rightarrow> string" where
  "chunk_text c = py_strip (transcript c @ '' '' @ caption c)"

text \<open>
  The value of the loop variable \<open>overlaps\<close> for a segment \<open>[s, e]\<close>: the frames inside
  the segment or, when there is none, the first element of the list sorted by distance
  to the midpoint.  Python's \<open>sorted\<close> is stable, as \<open>sort_key\<close> is.
\<close>

definition select_frames :: "rat \<Rightarrow> rat \<Rightarrow> frame_desc list \<Rightarrow> frame_desc list" where
  "select_frames s e frame_descriptions =
     (let overlaps =
            filter (\<lambda>f. s \<le> fd_timestamp f \<and> fd_timestamp f \<le> e) frame_descriptions
      in if overlaps = []
         then take 1 (sort_key (\<lambda>x. \<bar>fd_timestamp x - (s + e) / 2\<bar>) frame_descriptions)
         else overlaps)"

definition make_chunk :: "string \<Rightarrow> frame_desc list \<Rightarrow> segment \<Rightarrow> chunk" where
  "make_chunk vid frame_descriptions seg =
     (let s = seg_start seg; e = seg_end seg;
          overlaps = select_frames s e frame_descriptions;
          combined_caption = py_join '' | '' (map fd_caption overlaps);
          thumb = (case overlaps of [] \<Rightarrow> [] | o1 # _ \<Rightarrow> fd_frame_file o1)
      in \<lparr>video_id = vid, c_start = s, c_end = e,
          transcript = py_strip (case seg_text seg of None \<Rightarrow> [] | Some t \<Rightarrow> t),
          caption = combined_caption, frame_file = thumb\<rparr>)"

text \<open>The loop over the segments appends one chunk per segment.\<close>

fun align_transcript_and_captions ::
  "string \<Rightarrow> segment list \<Rightarrow> frame_desc list \<Rightarrow> chunk list"
where
  "align_transcript_and_captions vid [] frame_descriptions = []"
| "align_transcript_and_captions vid (seg # segs) frame_descriptions =
     make_chunk vid frame_descriptions seg #
     align_transcript_and_captions vid segs frame_descriptions"

section \<open>Networked vector store (vectorstore/qdrant_store.py)\<close>

text \<open>The exceptions the embedded functions raise, as values.\<close>

datatype py_error =
    RuntimeError string
  | ValueError string
  | FileNotFoundError string
  | CollaboratorError string

subsection \<open>Decimal strings\<close>

definition digit_char :: "nat \<Rightarrow> char" where
  "digit_char d = char_of (48 + d)"

definition is_digit :: "char \<Rightarrow> bool" where
  "is_digit c = (let n = (of_char c :: nat) in 48 \<le> n \<and> n \<le> 57)"

definition digit_value :: "char \<Rightarrow> nat" where
  "digit_value c = (of_char c :: nat) - 48"

text \<open>\<open>str(n)\<close> for a Python \<open>int\<close>.\<close>

fun str_nat :: "nat \<Rightarrow> string" where
  "str_nat n = (if n < 10 then [digit_char n] else str_nat (n div 10) @ [digit_char (n mod 10)])"

declare str_nat.simps [simp del]

definition str_int :: "int \<Rightarrow> string" where
  "str_int i = (if i < 0 then CHR ''-'' # str_nat (nat (- i)) else str_nat (nat i))"

text \<open>\<open>s.isdigit()\<close> and \<open>int(s)\<close> on a string of ASCII digits.\<close>

definition py_isdigit :: "string \<Rightarrow> bool" where
  "py_isdigit s = (s \<noteq> [] \<and> list_all is_digit s)"

definition nat_of_digits :: "string \<Rightarrow> nat" where
  "nat_of_digits s = foldl (\<lambda>a c. 10 * a + digit_value c) 0 s"

subsection \<open>Configuration and construction\<close>

text \<open>The environment variables the module reads (\<open>None\<close>: the variable is not set).\<close>

record os_env =
  QDRANT_URL :: "string option"
  QDRANT_API_KEY :: "string option"
  QDRANT_COLLECTION :: "string option"

record QdrantConfig =
  cfg_url :: string
  cfg_api_key :: "string option"
  cfg_collection :: string

definition DEFAULT_COLLECTION :: "os_env \<Rightarrow> string" where
  "DEFAULT_COLLECTION env =
     (case QDRANT_COLLECTION env of None \<Rightarrow> ''visionvault_chunks'' | Some c \<Rightarrow> c)"

definition env_config :: "os_env \<Rightarrow> QdrantConfig option" where
  "env_config env =
     (case QDRANT_URL env of
        None \<Rightarrow> None
      | Some u \<Rightarrow>
          if u = [] then None
          else Some \<lparr>cfg_url = u, cfg_api_key = QDRANT_API_KEY env,
                     cfg_collection = DEFAULT_COLLECTION env\<rparr>)"

text \<open>
  The values a payload may hold under \<open>point_id\<close> and \<open>chunk_id\<close>, and the identifiers
  handed to the client: an integer or a string.
\<close>

datatype py_value = PNone | PInt int | PStr string

datatype point_id = IntId int | StrId string

text \<open>
  A payload dictionary: the keys the store reads (\<open>None\<close> and \<open>PNone\<close>: the key is
  absent) and the rest of the dictionary.
\<close>

record 'b payload =
  p_point_id :: py_value
  p_chunk_id :: py_value
  p_video_id :: "string option"
  p_start :: "rat option"
  p_end :: "rat option"
  p_other :: 'b

text \<open>
  The requests sent to the Qdrant client, which is an external service: the model
  records each request and takes the client's answers as inputs.
\<close>

datatype 'b client_call =
    GetCollections
  | CreateCollection string int
  | CreatePayloadIndex string string
  | UpsertPoints string "(point_id \<times> rat list \<times> 'b payload) list"
  | SearchPoints string "rat list" int "string option"

fun call_collection :: "'b client_call \<Rightarrow> string option" where
  "call_collection GetCollections = None"
| "call_collection (CreateCollection n d) = Some n"
| "call_collection (CreatePayloadIndex n f) = Some n"
| "call_collection (UpsertPoints n ps) = Some n"
| "call_collection (SearchPoints n q k f) = Some n"

text \<open>
  The client's answers during construction: the names of the existing collections
  (\<open>None\<close>: listing raised), and whether creating the collection and the payload index
  succeeded.
\<close>

record client_answers =
  existing_collections :: "string list option"
  create_collection_ok :: bool
  create_payload_index_ok :: bool

record QdrantStore =
  st_dim :: int
  st_cfg :: QdrantConfig
  st_collection :: string

text \<open>\<open>QdrantStore._ensure_collection\<close>: returns the error, if any, and the requests made.\<close>

definition ensure_collection ::
  "client_answers \<Rightarrow> QdrantStore \<Rightarrow> py_error option \<times> 'b client_call list"
where
  "ensure_collection ans st =
     (if (case existing_collections ans of
            None \<Rightarrow> False
          | Some names \<Rightarrow> st_collection st \<in> set names)
      then (None, [GetCollections])
      else if \<not> create_collection_ok ans
      then (Some (CollaboratorError ''create_collection''),
            [GetCollections, CreateCollection (st_collection st) (st_dim st)])
      else (None,
            [GetCollections, CreateCollection (st_collection st) (st_dim st),
             CreatePayloadIndex (st_collection st) ''video_id'']))"

text \<open>\<open>QdrantStore.__init__\<close>; the collection name is \<open>f"{base}_d{self.dim}"\<close>.\<close>

definition QdrantStore_init ::
  "os_env \<Rightarrow> client_answers \<Rightarrow> int \<Rightarrow> QdrantConfig option
     \<Rightarrow> (py_error + QdrantStore) \<times> 'b client_call list"
where
  "QdrantStore_init env ans dim' cfg =
     (case (case cfg of Some c \<Rightarrow> Some c | None \<Rightarrow> env_config env) of
        None \<Rightarrow> (Inl (RuntimeError ''QDRANT_URL env var not set; cannot use QdrantStore''), [])
      | Some c \<Rightarrow>
          let base = cfg_collection c;
              st = \<lparr>st_dim = dim', st_cfg = c, st_collection = base @ ''_d'' @ str_int dim'\<rparr>
          in (case ensure_collection ans st of
                (Some err, calls) \<Rightarrow> (Inl err, calls)
              | (None, calls) \<Rightarrow> (Inr st, calls)))"

subsection \<open>Point identifiers\<close>

text \<open>
  The standard-library functions the store calls, as parameters:
  \<open>uuid_str s\<close> is \<open>str(uuid.UUID(s))\<close> (\<open>None\<close>: \<open>uuid.UUID\<close> raised),
  \<open>uuid5_url key\<close> is \<open>str(uuid.uuid5(uuid.NAMESPACE_URL, key))\<close>, and \<open>str_float x\<close> is
  the text an f-string gives a float.
\<close>

record py_lib =
  uuid_str :: "string \<Rightarrow> string option"
  uuid5_url :: "string \<Rightarrow> string"
  str_float :: "rat \<Rightarrow> string"

text \<open>\<open>_as_qdrant_point_id\<close>, the local function of \<open>upsert\<close>.\<close>

definition as_qdrant_point_id :: "py_lib \<Rightarrow> py_value \<Rightarrow> string \<Rightarrow> point_id" where
  "as_qdrant_point_id lib raw fallback_key =
     (case raw of
        PNone \<Rightarrow> StrId (uuid5_url lib fallback_key)
      | PInt n \<Rightarrow> IntId n
      | PStr r \<Rightarrow>
          let s = py_strip r
          in if s = [] then StrId (uuid5_url lib fallback_key)
             else if py_isdigit s then IntId (int (nat_of_digits s))
             else (case uuid_str lib s of
                     Some u \<Rightarrow> StrId u
                   | None \<Rightarrow> StrId (uuid5_url lib fallback_key)))"

text \<open>Python's \<open>a or b\<close> on these values: \<open>None\<close>, \<open>0\<close> and \<open>""\<close> are false.\<close>

definition py_truthy :: "py_value \<Rightarrow> bool" where
  "py_truthy v = (case v of PNone \<Rightarrow> False | PInt n \<Rightarrow> n \<noteq> 0 | PStr s \<Rightarrow> s \<noteq> [])"

definition py_or :: "py_value \<Rightarrow> py_value \<Rightarrow> py_value" where
  "py_or a b = (if py_truthy a then a else b)"

definition fallback_key :: "py_lib \<Rightarrow> 'b payload \<Rightarrow> nat \<Rightarrow> string" where
  "fallback_key lib p i =
     (let vid = (case p_video_id p of None \<Rightarrow> ''vid'' | Some v \<Rightarrow> v);
          start = (case p_start p of None \<Rightarrow> [] | Some x \<Rightarrow> str_float lib x);
          end' = (case p_end p of None \<Rightarrow> [] | Some x \<Rightarrow> str_float lib x)
      in vid @ '':'' @ start @ '':'' @ end' @ '':'' @ str_int (int i))"

text \<open>The body of the loop of \<open>upsert\<close> for index \<open>i\<close>: the identifier of the point.\<close>

definition upsert_point_id :: "py_lib \<Rightarrow> 'b payload \<Rightarrow> nat \<Rightarrow> point_id" where
  "upsert_point_id lib p i =
     (let raw_pid = py_or (p_point_id p) (p_chunk_id p)
      in as_qdrant_point_id lib raw_pid (fallback_key lib p i))"

text \<open>
  \<open>QdrantStore.upsert\<close>; the vectors are a list of rows, so the array is two-dimensional.
\<close>

definition upsert ::
  "py_lib \<Rightarrow> QdrantStore \<Rightarrow> rat list list \<Rightarrow> 'b payload list
     \<Rightarrow> py_error option \<times> 'b client_call list"
where
  "upsert lib st vectors payloads =
     (if length payloads \<noteq> length vectors
      then (Some (ValueError ''payload length must match vectors''), [])
      else (None,
            [UpsertPoints (st_collection st)
               (map (\<lambda>i. (upsert_point_id lib (payloads ! i) i, vectors ! i, payloads ! i))
                    [0..<length vectors])]))"

text \<open>The request \<open>QdrantStore.search\<close> sends; an empty or missing video id means no filter.\<close>

definition search_request ::
  "QdrantStore \<Rightarrow> rat list \<Rightarrow> int \<Rightarrow> string option \<Rightarrow> 'b client_call"
where
  "search_request st query_vec top_k vid =
     SearchPoints (st_collection st) query_vec top_k
       (case vid of None \<Rightarrow> None | Some v \<Rightarrow> if v = [] then None else Some v)"

subsection \<open>The standard library's UUID parser\<close>

text \<open>
  \<open>str(uuid.UUID(s))\<close> as CPython's \<open>Lib/uuid.py\<close> computes it, for the strings whose
  32 characters left after removing \<open>urn:\<close>, \<open>uuid:\<close>, surrounding braces and hyphens are
  plain hexadecimal digits.  It is used only at such strings.
\<close>

text \<open>\<open>s.replace(pat, "")\<close> for a non-empty pattern.\<close>

fun py_remove_aux :: "string \<Rightarrow> nat \<Rightarrow> string \<Rightarrow> string" where
  "py_remove_aux pat skip [] = []"
| "py_remove_aux pat (Suc n) (c # cs) = py_remove_aux pat n cs"
| "py_remove_aux pat 0 (c # cs) =
     (if prefix pat (c # cs) then py_remove_aux pat (length pat - 1) cs
      else c # py_remove_aux pat 0 cs)"

definition py_remove :: "string \<Rightarrow> string \<Rightarrow> string" where
  "py_remove pat s = py_remove_aux pat 0 s"

text \<open>\<open>s.strip(chars)\<close>\<close>

definition py_strip_chars :: "string \<Rightarrow> string \<Rightarrow> string" where
  "py_strip_chars chars s =
     rev (dropWhile (\<lambda>c. c \<in> set chars) (rev (dropWhile (\<lambda>c. c \<in> set chars) s)))"

definition is_hex_digit :: "char \<Rightarrow> bool" where
  "is_hex_digit c =
     (let n = (of_char c :: nat)
      in (48 \<le> n \<and> n \<le> 57) \<or> (65 \<le> n \<and> n \<le> 70) \<or> (97 \<le> n \<and> n \<le> 102))"

definition is_lower_hex_digit :: "char \<Rightarrow> bool" where
  "is_lower_hex_digit c =
     (let n = (of_char c :: nat) in (48 \<le> n \<and> n \<le> 57) \<or> (97 \<le> n \<and> n \<le> 102))"

definition hex_lower :: "char \<Rightarrow> char" where
  "hex_lower c =
     (let n = (of_char c :: nat) in if 65 \<le> n \<and> n \<le> 70 then char_of (n + 32) else c)"

text \<open>\<open>UUID.__str__\<close>: the 32 digits in groups of 8, 4, 4, 4 and 12.\<close>

definition hyphenate :: "string \<Rightarrow> string" where
  "hyphenate h =
     take 8 h @ ''-'' @ take 4 (drop 8 h) @ ''-'' @ take 4 (drop 12 h) @ ''-'' @
     take 4 (drop 16 h) @ ''-'' @ drop 20 h"

definition cpython_uuid_str :: "string \<Rightarrow> string option" where
  "cpython_uuid_str s =
     (let hex = py_remove ''uuid:'' (py_remove ''urn:'' s);
          hex = filter (\<lambda>c. c \<noteq> CHR ''-'') (py_strip_chars ''{}'' hex)
      in if length hex \<noteq> 32 then None
         else if \<not> list_all is_hex_digit hex then None
         else Some (hyphenate (map hex_lower hex)))"

text \<open>
  A library instance for evaluating examples: the UUID parser above, a tag in place of
  the UUID5 string (the hash is not computed), and the float text of whole numbers.
\<close>

definition example_lib :: py_lib where
  "example_lib =
     \<lparr>uuid_str = cpython_uuid_str,
      uuid5_url = (\<lambda>key. ''uuid5:'' @ key),
      str_float = (\<lambda>x. str_int \<lfloor>x\<rfloor> @ ''.0'')\<rparr>"

section \<open>Ingestion (processing/pipeline.py, processing/extract_frames.py)\<close>

subsection \<open>Frame numbers and timestamps\<close>

text \<open>\<open>Path(name).stem\<close> of a file name without directory part: the name up to its last dot,
  unless that dot is the first or the last character.\<close>

definition path_stem :: "string \<Rightarrow> string" where
  "path_stem name =
     (let after = takeWhile (\<lambda>c. c \<noteq> CHR ''.'') (rev name);
          i = length name - length after - 1
      in if CHR ''.'' \<in> set name \<and> 0 < i \<and> after \<noteq> [] then take i name else name)"

text \<open>\<open>s.split("_")[-1]\<close>: what follows the last underscore.\<close>

definition last_field :: "string \<Rightarrow> string" where
  "last_field s = rev (takeWhile (\<lambda>c. c \<noteq> CHR ''_'') (rev s))"

text \<open>
  \<open>parse_frame_number\<close>.  \<open>int\<close> is modelled on strings of ASCII digits and raises
  \<open>ValueError\<close> on every other string; the names ffmpeg writes under the pattern
  \<open>frame_%06d.jpg\<close> are of the first kind.
\<close>

definition parse_frame_number :: "string \<Rightarrow> py_error + int" where
  "parse_frame_number frame_filename =
     (let stem = path_stem frame_filename; field = last_field stem
      in if py_isdigit field then Inr (int (nat_of_digits field))
         else Inl (ValueError ''invalid literal for int()''))"

definition frame_number_to_timestamp_seconds :: "int \<Rightarrow> rat \<Rightarrow> rat" where
  "frame_number_to_timestamp_seconds frame_number fps =
     max 0 ((of_int frame_number - 1) / fps)"

text \<open>The loop of \<open>ingest_video\<close> that builds \<open>frame_desc\<close> from the frame files.\<close>

fun frame_descriptions ::
  "rat \<Rightarrow> (string \<rightharpoonup> string) \<Rightarrow> string list \<Rightarrow> py_error + frame_desc list"
where
  "frame_descriptions fps cap_map [] = Inr []"
| "frame_descriptions fps cap_map (fp # fps') =
     (case parse_frame_number fp of
        Inl e \<Rightarrow> Inl e
      | Inr n \<Rightarrow>
          (case frame_descriptions fps cap_map fps' of
             Inl e \<Rightarrow> Inl e
           | Inr rest \<Rightarrow>
               Inr (\<lparr>fd_frame_file = fp,
                     fd_timestamp = frame_number_to_timestamp_seconds n fps,
                     fd_caption = (case cap_map fp of None \<Rightarrow> [] | Some c \<Rightarrow> c)\<rparr> # rest)))"

subsection \<open>The process state and the collaborators\<close>

text \<open>
  What the ingest does to the outside, in order: the calls to the external
  collaborators, the requests to the vector stores and the files written.
\<close>

datatype event =
    DownloadYoutube string
  | CopyLocal string
  | ExtractAudio
  | ExtractFrames rat
  | TranscribeAudio
  | CaptionFrames "string list"
  | LoadEmbedder
  | Encode "string list"
  | QdrantCall "chunk client_call"
  | FaissAdd "rat list list" "chunk list"
  | BuildIndex "chunk list"
  | WriteFile string

fun is_store_write :: "event \<Rightarrow> bool" where
  "is_store_write (QdrantCall (UpsertPoints n ps)) = True"
| "is_store_write (FaissAdd vs ms) = True"
| "is_store_write (BuildIndex cs) = True"
| "is_store_write _ = False"

text \<open>
  The module's global \<open>_CANCEL_INGEST\<close> and the trace of events.
\<close>

record world =
  CANCEL_INGEST :: bool
  trace :: "event list"

text \<open>
  The stretches of an ingest during which another request handler of the process may
  run \<open>request_cancel_ingest\<close>.
\<close>

datatype stage =
    AtSetup | AtAcquire | AtAudio | AtFrames | AtTranscribe | AtCaption | AtEmbed
  | AtStoreInit | AtStore | AtIndex

text \<open>
  The answers of the collaborators (\<open>Inl\<close> or \<open>Some\<close> error: the call raises), the
  environment, and the schedule of concurrent cancellation requests.
\<close>

record collab =
  new_video_id :: string
  local_exists :: "string \<Rightarrow> bool"
  download_youtube :: "string \<Rightarrow> py_error option"
  extract_audio :: "py_error option"
  extract_frames :: "rat \<Rightarrow> py_error + string list"
  transcribe_audio :: "py_error + segment list"
  caption_frames :: "string list \<Rightarrow> py_error + (string \<rightharpoonup> string)"
  load_embedder :: "py_error option"
  encode :: "string list \<Rightarrow> py_error + rat list list \<times> int"
  environ :: os_env
  qdrant_answers :: client_answers
  qdrant_upsert :: "py_error option"
  faiss_add :: "py_error option"
  build_index_from_chunks :: "py_error option"
  pylib :: py_lib
  cancel_requested_during :: "stage \<Rightarrow> bool"

type_synonym 'a io = "world \<Rightarrow> (py_error + 'a) \<times> world"

definition returnE :: "'a \<Rightarrow> 'a io" where
  "returnE x = (\<lambda>w. (Inr x, w))"

definition raiseE :: "py_error \<Rightarrow> 'a io" where
  "raiseE e = (\<lambda>w. (Inl e, w))"

definition bindE :: "'a io \<Rightarrow> ('a \<Rightarrow> 'b io) \<Rightarrow> 'b io" where
  "bindE m f = (\<lambda>w. case m w of (Inl e, w') \<Rightarrow> (Inl e, w') | (Inr x, w') \<Rightarrow> f x w')"

text \<open>\<open>try: ... except Exception: pass\<close>\<close>

definition try_pass :: "unit io \<Rightarrow> unit io" where
  "try_pass m = (\<lambda>w. case m w of (r, w') \<Rightarrow> (Inr (), w'))"

definition log_event :: "event \<Rightarrow> unit io" where
  "log_event ev = (\<lambda>w. (Inr (), w\<lparr>trace := trace w @ [ev]\<rparr>))"

definition log_events :: "event list \<Rightarrow> unit io" where
  "log_events evs = (\<lambda>w. (Inr (), w\<lparr>trace := trace w @ evs\<rparr>))"

definition lift_result :: "py_error + 'a \<Rightarrow> 'a io" where
  "lift_result r = (\<lambda>w. (r, w))"

definition lift_outcome :: "py_error option \<Rightarrow> unit io" where
  "lift_outcome r = (case r of None \<Rightarrow> returnE () | Some e \<Rightarrow> raiseE e)"

definition request_cancel_ingest :: "world \<Rightarrow> world" where
  "request_cancel_ingest w = w\<lparr>CANCEL_INGEST := True\<rparr>"

text \<open>\<open>_check_cancel\<close>\<close>

definition check_cancel :: "unit io" where
  "check_cancel =
     (\<lambda>w. if CANCEL_INGEST w then (Inl (RuntimeError ''Ingest cancelled''), w)
          else (Inr (), w))"

text \<open>Other handlers of the process run during a stage.\<close>

definition concurrently :: "collab \<Rightarrow> stage \<Rightarrow> unit io" where
  "concurrently c st =
     (\<lambda>w. (Inr (), if cancel_requested_during c st then request_cancel_ingest w else w))"

subsection \<open>\<open>ingest_video\<close>, stage by stage\<close>

text \<open>The chunk dictionary handed to the networked store as payload.\<close>

definition chunk_payload :: "chunk \<Rightarrow> chunk payload" where
  "chunk_payload ch =
     \<lparr>p_point_id = PNone, p_chunk_id = PNone, p_video_id = Some (video_id ch),
      p_start = Some (c_start ch), p_end = Some (c_end ch), p_other = ch\<rparr>"

definition acquire_source :: "collab \<Rightarrow> string \<Rightarrow> string \<Rightarrow> unit io" where
  "acquire_source c source_type source =
     (if source_type = ''youtube''
      then bindE check_cancel (\<lambda>_.
           bindE (log_event (DownloadYoutube source)) (\<lambda>_.
           bindE (concurrently c AtAcquire) (\<lambda>_.
           lift_outcome (download_youtube c source))))
      else if source_type = ''local''
      then (if \<not> local_exists c source
            then raiseE (FileNotFoundError (''Local video not found: '' @ source))
            else bindE (log_event (CopyLocal source)) (\<lambda>_. concurrently c AtAcquire))
      else raiseE (ValueError ''source_type must be youtube or local''))"

definition frames_stage :: "collab \<Rightarrow> rat \<Rightarrow> int option \<Rightarrow> string list io" where
  "frames_stage c fps max_frames =
     (if 0 < fps \<and> (case max_frames of None \<Rightarrow> True | Some m \<Rightarrow> 0 < m)
      then bindE check_cancel (\<lambda>_.
           bindE (log_event (ExtractFrames fps)) (\<lambda>_.
           bindE (concurrently c AtFrames) (\<lambda>_.
           bindE (lift_result (extract_frames c fps)) (\<lambda>frame_files.
           returnE (case max_frames of
                      None \<Rightarrow> frame_files
                    | Some m \<Rightarrow> py_prefix frame_files m)))))
      else returnE [])"

definition caption_stage :: "collab \<Rightarrow> bool \<Rightarrow> string list \<Rightarrow> (string \<rightharpoonup> string) io" where
  "caption_stage c enable_captions frame_files =
     (if \<not> enable_captions then returnE Map.empty
      else bindE (log_event (CaptionFrames frame_files)) (\<lambda>_.
           lift_result (caption_frames c frame_files)))"

definition store_stage :: "collab \<Rightarrow> rat list list \<Rightarrow> int \<Rightarrow> chunk list \<Rightarrow> unit io" where
  "store_stage c embs dim' chunk_dicts =
     (if (case QDRANT_URL (environ c) of None \<Rightarrow> False | Some u \<Rightarrow> u \<noteq> [])
      then (case QdrantStore_init (environ c) (qdrant_answers c) dim' None of
              (r, calls) \<Rightarrow>
                bindE (log_events (map QdrantCall calls)) (\<lambda>_.
                bindE (concurrently c AtStoreInit) (\<lambda>_.
                bindE (lift_result r) (\<lambda>qstore.
                bindE check_cancel (\<lambda>_.
                (case upsert (pylib c) qstore embs (map chunk_payload chunk_dicts) of
                   (r', calls') \<Rightarrow>
                     bindE (log_events (map QdrantCall calls')) (\<lambda>_.
                     bindE (concurrently c AtStore) (\<lambda>_.
                     bindE (lift_outcome r') (\<lambda>_.
                     lift_outcome (qdrant_upsert c))))))))))
      else bindE (log_event (FaissAdd embs chunk_dicts)) (\<lambda>_.
           bindE (concurrently c AtStore) (\<lambda>_.
           lift_outcome (faiss_add c))))"

record ingest_result =
  r_video_id :: string
  chunks_indexed :: nat

text \<open>
  \<open>ingest_video\<close> from the embedding of the chunk texts to its return value: the
  statements after \<open>chunk_dicts\<close> is built.
\<close>

definition ingest_from_chunks :: "collab \<Rightarrow> chunk list \<Rightarrow> ingest_result io" where
  "ingest_from_chunks c chunk_dicts =
     bindE (log_event (WriteFile ''chunks.json'')) (\<lambda>_.
     bindE (log_event LoadEmbedder) (\<lambda>_.
     bindE (lift_outcome (load_embedder c)) (\<lambda>_.
     let texts = map chunk_text chunk_dicts in
     bindE check_cancel (\<lambda>_.
     bindE (log_event (Encode texts)) (\<lambda>_.
     bindE (concurrently c AtEmbed) (\<lambda>_.
     bindE (lift_result (encode c texts)) (\<lambda>(embs, dim').
     bindE (store_stage c embs dim' chunk_dicts) (\<lambda>_.
     bindE (try_pass
              (bindE check_cancel (\<lambda>_.
               bindE (log_event (BuildIndex chunk_dicts)) (\<lambda>_.
               bindE (concurrently c AtIndex) (\<lambda>_.
               lift_outcome (build_index_from_chunks c)))))) (\<lambda>_.
     returnE \<lparr>r_video_id = new_video_id c,
              chunks_indexed = length chunk_dicts\<rparr>)))))))))"

text \<open>
  \<open>ingest_video\<close> from the check before \<open>extract_audio\<close> on: audio, frames,
  transcription, captions and alignment.
\<close>

definition ingest_from_audio ::
  "collab \<Rightarrow> rat \<Rightarrow> int option \<Rightarrow> bool \<Rightarrow> ingest_result io"
where
  "ingest_from_audio c fps max_frames enable_captions =
     bindE check_cancel (\<lambda>_.
     bindE (log_event ExtractAudio) (\<lambda>_.
     bindE (concurrently c AtAudio) (\<lambda>_.
     bindE (lift_outcome (extract_audio c)) (\<lambda>_.
     bindE (frames_stage c fps max_frames) (\<lambda>frame_files.
     bindE check_cancel (\<lambda>_.
     bindE (log_event TranscribeAudio) (\<lambda>_.
     bindE (concurrently c AtTranscribe) (\<lambda>_.
     bindE (lift_result (transcribe_audio c)) (\<lambda>transcript.
     bindE (log_event (WriteFile ''transcript.json'')) (\<lambda>_.
     bindE check_cancel (\<lambda>_.
     bindE (caption_stage c enable_captions frame_files) (\<lambda>cap_map.
     bindE (concurrently c AtCaption) (\<lambda>_.
     bindE (lift_result (frame_descriptions fps cap_map frame_files)) (\<lambda>frame_desc.
     let chunks = align_transcript_and_captions (new_video_id c) transcript frame_desc
     in ingest_from_chunks c chunks))))))))))))))"

text \<open>
  \<open>ingest_video\<close>: the flag is reset first; then the metadata file is written and the
  source acquired.
\<close>

definition ingest_video ::
  "collab \<Rightarrow> string \<Rightarrow> string \<Rightarrow> rat \<Rightarrow> int option \<Rightarrow> bool \<Rightarrow> ingest_result io"
where
  "ingest_video c source_type source fps max_frames enable_captions =
     bindE (\<lambda>w. (Inr (), w\<lparr>CANCEL_INGEST := False\<rparr>)) (\<lambda>_.
     bindE (log_event (WriteFile ''meta.json'')) (\<lambda>_.
     bindE (concurrently c AtSetup) (\<lambda>_.
     bindE (acquire_source c source_type source) (\<lambda>_.
     ingest_from_audio c fps max_frames enable_captions))))"

text \<open>
  Collaborators for evaluating examples: every call succeeds, two frames are extracted
  at one frame per second, the transcript has one segment from 0 to 2 seconds, the
  local store is used, and nobody requests cancellation during the ingest.
\<close>

definition example_collab :: collab where
  "example_collab =
     \<lparr>new_video_id = ''0123456789'',
      local_exists = (\<lambda>path. True),
      download_youtube = (\<lambda>url. None),
      extract_audio = None,
      extract_frames = (\<lambda>fps. Inr [''frame_000001.jpg'', ''frame_000002.jpg'']),
      transcribe_audio = Inr [\<lparr>seg_start = 0, seg_end = 2, seg_text = Some ''hello''\<rparr>],
      caption_frames = (\<lambda>files. Inr (\<lambda>name. Some ''a frame'')),
      load_embedder = None,
      encode = (\<lambda>texts. Inr (map (\<lambda>t. [1, 0]) texts, 2)),
      environ = \<lparr>QDRANT_URL = None, QDRANT_API_KEY = None, QDRANT_COLLECTION = None\<rparr>,
      qdrant_answers = \<lparr>existing_collections = Some [], create_collection_ok = True,
                        create_payload_index_ok = True\<rparr>,
      qdrant_upsert = None,
      faiss_add = None,
      build_index_from_chunks = None,
      pylib = example_lib,
      cancel_requested_during = (\<lambda>st. False)\<rparr>"

text \<open>The same collaborators with a cancellation request arriving during the set-up.\<close>

definition example_collab_cancel_at_setup :: collab where
  "example_collab_cancel_at_setup =
     example_collab\<lparr>cancel_requested_during := (\<lambda>st. st = AtSetup)\<rparr>"

definition idle_world :: world where
  "idle_world = \<lparr>CANCEL_INGEST = False, trace = []\<rparr>"

subsection \<open>What a computation adds to the trace\<close>

text \<open>\<open>adds_only P m\<close>: whatever the state, \<open>m\<close> extends the trace by events satisfying \<open>P\<close>.\<close>

definition adds_only :: "(event \<Rightarrow> bool) \<Rightarrow> 'a io \<Rightarrow> bool" where
  "adds_only P m = (\<forall>w. \<exists>evs. trace (snd (m w)) = trace w @ evs \<and> list_all P evs)"

fun is_caption_call :: "event \<Rightarrow> bool" where
  "is_caption_call (CaptionFrames fs) = True"
| "is_caption_call _ = False"

section \<open>Properties of the adaptive cutoff\<close>

lemma subseq_py_prefix: "subseq (py_prefix xs n) xs"
proof -
  have "subseq (take m xs) xs" for m
    using subseq_rev_drop_many[of "take m xs" "take m xs" "drop m xs"] by simp
  then show ?thesis by (simp add: py_prefix_def)
qed

lemma length_py_prefix: "0 \<le> n \<Longrightarrow> int (length (py_prefix xs n)) \<le> n"
  by (simp add: py_prefix_def)

lemma subseq_accumulate:
  "subseq out pre \<Longrightarrow> subseq (accumulate P best k ps out prev) (pre @ map fst ps)"
proof (induction ps arbitrary: out pre prev)
  case Nil
  then show ?case by simp
next
  case (Cons p ps)
  obtain h s where p: "p = (h, s)" by (cases p)
  have ext: "subseq out (pre @ [h])"
    by (rule subseq_rev_drop_many) (rule Cons.prems)
  have ext': "subseq (out @ [h]) (pre @ [h])"
    using Cons.prems by (rule list_emb_append_mono) simp
  have skip: "subseq (accumulate P best k ps out prev) ((pre @ [h]) @ map fst ps)"
    by (rule Cons.IH) (rule ext)
  have keep: "subseq (accumulate P best k ps (out @ [h]) s) ((pre @ [h]) @ map fst ps)"
    by (rule Cons.IH) (rule ext')
  have stop: "subseq out ((pre @ [h]) @ map fst ps)"
    by (rule subseq_rev_drop_many) (rule ext)
  have stop': "subseq (out @ [h]) ((pre @ [h]) @ map fst ps)"
    by (rule subseq_rev_drop_many) (rule ext')
  from skip keep stop stop' show ?case
    by (simp add: p Let_def)
qed

lemma length_accumulate:
  "int (length out) < k \<Longrightarrow> int (length (accumulate P best k ps out prev)) \<le> k"
proof (induction ps arbitrary: out prev)
  case Nil
  then show ?case by simp
next
  case (Cons p ps)
  obtain h s where p: "p = (h, s)" by (cases p)
  show ?case
    using Cons.prems Cons.IH[of out prev] Cons.IH[of "out @ [h]" s]
    by (simp add: p Let_def)
qed

lemma map_fst_zip_map: "map fst (zip xs (map f xs)) = xs"
  by (induction xs) auto

lemma filter_hits_cases:
  "filter_hits P hits k = [] \<or>
   filter_hits P hits k = py_prefix hits (min k (max (min_return_hits P) 0)) \<or>
   (\<exists>b. filter_hits P hits k = accumulate P b k (zip hits (map effective_score hits)) [] b)"
  unfolding filter_hits_def Let_def by metis

text \<open>
  Claim C10.  For every candidate list, every \<open>top_k \<ge> 1\<close> and every setting of the
  parameters (in particular \<open>min_return_hits\<close> larger than \<open>top_k\<close>), the result of the
  cutoff is a subsequence of the input list, and it has at most \<open>top_k\<close> elements.
\<close>

theorem filter_hits_subseq_bounded:
  assumes "1 \<le> k"
  shows "subseq (filter_hits P hits k) hits \<and> int (length (filter_hits P hits k)) \<le> k"
proof -
  let ?n = "min k (max (min_return_hits P) 0)"
  have n: "0 \<le> ?n" "?n \<le> k" using assms by auto
  have l1: "int (length (py_prefix hits ?n)) \<le> k"
    using length_py_prefix[OF n(1), of hits] n(2) by linarith
  have s1: "subseq (py_prefix hits ?n) hits" by (rule subseq_py_prefix)
  have s2: "subseq (accumulate P b k (zip hits (map effective_score hits)) [] b) hits" for b
    using subseq_accumulate[of "[]" "[]" P b k "zip hits (map effective_score hits)" b]
    by (simp add: map_fst_zip_map)
  have l2: "int (length (accumulate P b k (zip hits (map effective_score hits)) [] b)) \<le> k"
    for b
    using length_accumulate[of "[]" k P b] assms by simp
  from filter_hits_cases[of P hits k] show ?thesis
  proof (elim disjE exE)
    assume "filter_hits P hits k = []"
    then show ?thesis using assms by simp
  next
    assume "filter_hits P hits k = py_prefix hits ?n"
    then show ?thesis using l1 s1 by simp
  next
    fix b
    assume "filter_hits P hits k = accumulate P b k (zip hits (map effective_score hits)) [] b"
    then show ?thesis using l2 s2 by simp
  qed
qed

theorem filter_hits_subseq_bounded_witness:
  "(1::int) \<le> 2 \<and>
   subseq
     (filter_hits (default_params\<lparr>min_return_hits := 7\<rparr>)
        [\<lparr>payload = ''a'', score = Some (1 / 2), rerank_score = None\<rparr>,
         \<lparr>payload = ''b'', score = Some (1 / 4), rerank_score = None\<rparr>,
         \<lparr>payload = ''c'', score = Some (1 / 8), rerank_score = None\<rparr>] 2)
     [\<lparr>payload = ''a'', score = Some (1 / 2), rerank_score = None\<rparr>,
      \<lparr>payload = ''b'', score = Some (1 / 4), rerank_score = None\<rparr>,
      \<lparr>payload = ''c'', score = Some (1 / 8), rerank_score = None\<rparr>] \<and>
   int (length
     (filter_hits (default_params\<lparr>min_return_hits := 7\<rparr>)
        [\<lparr>payload = ''a'', score = Some (1 / 2), rerank_score = None\<rparr>,
         \<lparr>payload = ''b'', score = Some (1 / 4), rerank_score = None\<rparr>,
         \<lparr>payload = ''c'', score = Some (1 / 8), rerank_score = None\<rparr>] 2)) \<le> 2"
  using filter_hits_subseq_bounded [of 2 "default_params\<lparr>min_return_hits := 7\<rparr>"
      "[\<lparr>payload = ''a'', score = Some (1 / 2), rerank_score = None\<rparr>,
        \<lparr>payload = ''b'', score = Some (1 / 4), rerank_score = None\<rparr>,
        \<lparr>payload = ''c'', score = Some (1 / 8), rerank_score = None\<rparr>]"]
  by simp

text \<open>
  Claim C3.  With the default parameters and \<open>top_k \<ge> 3\<close>, candidates whose effective
  scores are 0.95, 0.94, 0.93, 0.60, 0.55 are cut to exactly the first three, in order.
\<close>

theorem filter_hits_literal_case:
  assumes sc: "map effective_score hits = [95 / 100, 94 / 100, 93 / 100, 60 / 100, 55 / 100]"
    and k: "3 \<le> k"
  shows "filter_hits default_params hits k = take 3 hits"
proof -
  from sc have "length (map effective_score hits) = 5" by simp
  then have "length hits = 5" by simp
  then obtain h1 h2 h3 h4 h5 where hs: "hits = [h1, h2, h3, h4, h5]"
    by (auto simp: length_Suc_conv numeral_eq_Suc)
  from sc hs have e: "effective_score h1 = 95 / 100" "effective_score h2 = 94 / 100"
    "effective_score h3 = 93 / 100" "effective_score h4 = 60 / 100"
    "effective_score h5 = 55 / 100"
    by simp_all
  show ?thesis using k
    by (simp add: hs filter_hits_def default_params_def Let_def e)
qed

theorem filter_hits_literal_case_witness:
  "filter_hits default_params
     [\<lparr>payload = ''a'', score = Some (95 / 100), rerank_score = None\<rparr>,
      \<lparr>payload = ''b'', score = Some (94 / 100), rerank_score = None\<rparr>,
      \<lparr>payload = ''c'', score = Some (1 / 100), rerank_score = Some (93 / 100)\<rparr>,
      \<lparr>payload = ''d'', score = Some (60 / 100), rerank_score = None\<rparr>,
      \<lparr>payload = ''e'', score = Some (55 / 100), rerank_score = None\<rparr>] 5 =
   [\<lparr>payload = ''a'', score = Some (95 / 100), rerank_score = None\<rparr>,
    \<lparr>payload = ''b'', score = Some (94 / 100), rerank_score = None\<rparr>,
    \<lparr>payload = ''c'', score = Some (1 / 100), rerank_score = Some (93 / 100)\<rparr>]"
  using filter_hits_literal_case [of
      "[\<lparr>payload = ''a'', score = Some (95 / 100), rerank_score = None\<rparr>,
        \<lparr>payload = ''b'', score = Some (94 / 100), rerank_score = None\<rparr>,
        \<lparr>payload = ''c'', score = Some (1 / 100), rerank_score = Some (93 / 100)\<rparr>,
        \<lparr>payload = ''d'', score = Some (60 / 100), rerank_score = None\<rparr>,
        \<lparr>payload = ''e'', score = Some (55 / 100), rerank_score = None\<rparr>]" 5]
  by (simp add: effective_score_def)






lemma filter_hits_unfold:
  assumes "hits \<noteq> []"
  shows "filter_hits P hits k =
     (if effective_score (hd hits) \<le> 0
      then py_prefix hits (min k (max (min_return_hits P) 0))
      else if int (length (accumulate P (effective_score (hd hits)) k
                (zip hits (map effective_score hits)) [] (effective_score (hd hits))))
              < min_return_hits P
      then py_prefix hits (min k (max (min_return_hits P) 0))
      else accumulate P (effective_score (hd hits)) k
             (zip hits (map effective_score hits)) [] (effective_score (hd hits)))"
proof -
  have hd: "hd (map effective_score hits) = effective_score (hd hits)"
    using assms by (simp add: hd_map)
  show ?thesis
    using assms unfolding filter_hits_def Let_def hd by simp
qed




text \<open>
  Claim C4, as stated, fails for \<open>top_k = 0\<close>: a non-empty pool whose first score is not
  positive yields no hit although \<open>min_return_hits = 1\<close>.
\<close>

theorem minimum_hits_top_k_zero_counterexample:
  "[\<lparr>payload = ''a'', score = Some 0, rerank_score = None\<rparr>] \<noteq> [] \<and>
   1 \<le> min_return_hits default_params \<and>
   filter_hits default_params [\<lparr>payload = ''a'', score = Some 0, rerank_score = None\<rparr>] 0 = []"
  by (simp add: filter_hits_def default_params_def effective_score_def Let_def py_prefix_def)

text \<open>
  Claim C4, amended.  For every non-empty candidate list and every \<open>top_k \<ge> 0\<close>: if the
  first candidate's effective score is not positive, the cutoff returns the first
  \<open>min(top_k, min_return_hits)\<close> candidates; whenever the accumulated output has fewer
  than \<open>min_return_hits\<close> entries, the first \<open>min(top_k, min_return_hits)\<close> candidates are
  returned instead; and for \<open>top_k \<ge> 1\<close> and \<open>min_return_hits \<ge> 1\<close> the result is never
  empty.
\<close>

theorem filter_hits_minimum_hits:
  assumes ne: "hits \<noteq> []" and k: "0 \<le> k"
  shows "(effective_score (hd hits) \<le> 0 \<longrightarrow>
            filter_hits P hits k = take (nat (min k (min_return_hits P))) hits) \<and>
         (0 < effective_score (hd hits) \<and>
          int (length (accumulate P (effective_score (hd hits)) k
                 (zip hits (map effective_score hits)) [] (effective_score (hd hits))))
            < min_return_hits P \<longrightarrow>
            filter_hits P hits k = take (nat (min k (min_return_hits P))) hits) \<and>
         (1 \<le> k \<and> 1 \<le> min_return_hits P \<longrightarrow> filter_hits P hits k \<noteq> [])"
proof -
  let ?best = "effective_score (hd hits)"
  let ?out = "accumulate P ?best k (zip hits (map effective_score hits)) [] ?best"
  define F where "F = py_prefix hits (min k (max (min_return_hits P) 0))"
  have unf: "filter_hits P hits k =
      (if ?best \<le> 0 then F else if int (length ?out) < min_return_hits P then F else ?out)"
    unfolding filter_hits_unfold[OF ne] F_def by simp
  have F: "F = take (nat (min k (min_return_hits P))) hits"
    unfolding F_def using k by (auto simp: py_prefix_def min_def max_def)
  have A: "?best \<le> 0 \<Longrightarrow> filter_hits P hits k = take (nat (min k (min_return_hits P))) hits"
    unfolding unf F by simp
  have B: "0 < ?best \<Longrightarrow> int (length ?out) < min_return_hits P \<Longrightarrow>
           filter_hits P hits k = take (nat (min k (min_return_hits P))) hits"
    unfolding unf F by simp
  have B': "0 < ?best \<Longrightarrow> \<not> int (length ?out) < min_return_hits P \<Longrightarrow>
           filter_hits P hits k = ?out"
    unfolding unf by simp
  have C: "filter_hits P hits k \<noteq> []" if "1 \<le> k" "1 \<le> min_return_hits P"
  proof -
    have t: "take (nat (min k (min_return_hits P))) hits \<noteq> []"
      using that ne by (auto simp: min_def)
    show ?thesis
    proof (cases "?best \<le> 0")
      case True
      then show ?thesis using A t by simp
    next
      case False
      then have pos: "0 < ?best" by simp
      show ?thesis
      proof (cases "int (length ?out) < min_return_hits P")
        case True
        then show ?thesis using B[OF pos] t by simp
      next
        case False
        with that have "?out \<noteq> []" by auto
        then show ?thesis using B'[OF pos False] by simp
      qed
    qed
  qed
  from A B C show ?thesis by blast
qed

theorem filter_hits_minimum_hits_witness:
  "[\<lparr>payload = ''a'', score = Some (95 / 100), rerank_score = None\<rparr>,
    \<lparr>payload = ''b'', score = Some (50 / 100), rerank_score = None\<rparr>,
    \<lparr>payload = ''c'', score = Some (40 / 100), rerank_score = None\<rparr>] \<noteq> [] \<and>
   (0::int) \<le> 5 \<and>
   int (length (accumulate (default_params\<lparr>min_return_hits := 2\<rparr>) (95 / 100) 5
     (zip
       [\<lparr>payload = ''a'', score = Some (95 / 100), rerank_score = None\<rparr>,
        \<lparr>payload = ''b'', score = Some (50 / 100), rerank_score = None\<rparr>,
        \<lparr>payload = ''c'', score = Some (40 / 100), rerank_score = None\<rparr>]
       [95 / 100, 50 / 100, 40 / 100]) [] (95 / 100)))
     < min_return_hits (default_params\<lparr>min_return_hits := 2\<rparr>) \<and>
   filter_hits (default_params\<lparr>min_return_hits := 2\<rparr>)
     [\<lparr>payload = ''a'', score = Some (95 / 100), rerank_score = None\<rparr>,
      \<lparr>payload = ''b'', score = Some (50 / 100), rerank_score = None\<rparr>,
      \<lparr>payload = ''c'', score = Some (40 / 100), rerank_score = None\<rparr>] 5 =
   [\<lparr>payload = ''a'', score = Some (95 / 100), rerank_score = None\<rparr>,
    \<lparr>payload = ''b'', score = Some (50 / 100), rerank_score = None\<rparr>]"
  using filter_hits_minimum_hits [of
      "[\<lparr>payload = ''a'', score = Some (95 / 100), rerank_score = None\<rparr>,
        \<lparr>payload = ''b'', score = Some (50 / 100), rerank_score = None\<rparr>,
        \<lparr>payload = ''c'', score = Some (40 / 100), rerank_score = None\<rparr>]" 5
      "default_params\<lparr>min_return_hits := 2\<rparr>"]
  by (simp add: effective_score_def default_params_def Let_def)

section \<open>Properties of the chunk alignment\<close>







lemma select_frames_empty: "select_frames s e [] = []"
  by (simp add: select_frames_def)





text \<open>
  Claim C9.  With an empty list of frame descriptions the alignment returns one chunk
  per segment, in order, with the segment's start, end and trimmed text, an empty
  caption and no representative frame: the guard \<open>if overlaps\<close> keeps \<open>overlaps[0]\<close>
  from being read, so nothing is raised.
\<close>

theorem align_without_frames:
  "length (align_transcript_and_captions vid segs []) = length segs \<and>
   align_transcript_and_captions vid segs [] =
     map (\<lambda>seg. \<lparr>video_id = vid, c_start = seg_start seg, c_end = seg_end seg,
                   transcript = py_strip (case seg_text seg of None \<Rightarrow> [] | Some t \<Rightarrow> t),
                   caption = [], frame_file = []\<rparr>) segs"
  by (induction segs) (simp_all add: make_chunk_def select_frames_empty)

section \<open>Properties of the networked vector store\<close>


lemma is_digit_digit_char: "d < 10 \<Longrightarrow> is_digit (digit_char d)"
  by (simp add: is_digit_def digit_char_def)

lemma digit_value_digit_char: "d < 10 \<Longrightarrow> digit_value (digit_char d) = d"
  by (simp add: digit_value_def digit_char_def)

lemma str_nat_digits: "list_all is_digit (str_nat n)"
proof (induction n rule: str_nat.induct)
  case (1 n)
  show ?case
  proof (cases "n < 10")
    case True
    then show ?thesis by (subst str_nat.simps) (simp add: is_digit_digit_char)
  next
    case False
    then show ?thesis using 1 by (subst str_nat.simps) (simp add: is_digit_digit_char)
  qed
qed

lemma str_nat_nonempty: "str_nat n \<noteq> []"
  by (subst str_nat.simps) simp

lemma nat_of_digits_snoc: "nat_of_digits (s @ [c]) = 10 * nat_of_digits s + digit_value c"
  by (simp add: nat_of_digits_def)

lemma nat_of_digits_str_nat: "nat_of_digits (str_nat n) = n"
proof (induction n rule: str_nat.induct)
  case (1 n)
  show ?case
  proof (cases "n < 10")
    case True
    then show ?thesis
      by (subst str_nat.simps) (simp add: nat_of_digits_def digit_value_digit_char)
  next
    case False
    then have "nat_of_digits (str_nat (n div 10)) = n div 10" using 1 by simp
    then show ?thesis using False
      by (subst str_nat.simps) (simp add: nat_of_digits_snoc digit_value_digit_char)
  qed
qed

lemma str_nat_inj: "str_nat m = str_nat n \<Longrightarrow> m = n"
  by (metis nat_of_digits_str_nat)

lemma is_digit_not_minus: "is_digit c \<Longrightarrow> c \<noteq> CHR ''-''"
  by (auto simp: is_digit_def)

lemma is_digit_not_d: "is_digit c \<Longrightarrow> c \<noteq> CHR ''d''"
  by (auto simp: is_digit_def)

lemma str_nat_hd_not_minus: "hd (str_nat n) \<noteq> CHR ''-''"
proof -
  have "is_digit (hd (str_nat n))"
    using str_nat_digits[of n] str_nat_nonempty[of n]
    by (cases "str_nat n") auto
  then show ?thesis by (rule is_digit_not_minus)
qed

lemma str_int_inj: "str_int i = str_int j \<Longrightarrow> i = j"
proof -
  assume eq: "str_int i = str_int j"
  have neg_pos: False if "a < 0" "\<not> b < 0" "str_int a = str_int b" for a b
  proof -
    from that have "CHR ''-'' # str_nat (nat (- a)) = str_nat (nat b)"
      by (simp add: str_int_def)
    then have "hd (str_nat (nat b)) = CHR ''-''" by (metis list.sel(1))
    then show False using str_nat_hd_not_minus by blast
  qed
  show "i = j"
  proof (cases "i < 0")
    case True
    show ?thesis
    proof (cases "j < 0")
      case True
      with \<open>i < 0\<close> eq have "str_nat (nat (- i)) = str_nat (nat (- j))"
        by (simp add: str_int_def)
      then have "nat (- i) = nat (- j)" by (rule str_nat_inj)
      with True \<open>i < 0\<close> show ?thesis by simp
    next
      case False
      with neg_pos[OF \<open>i < 0\<close> False eq] show ?thesis by simp
    qed
  next
    case False
    show ?thesis
    proof (cases "j < 0")
      case True
      with neg_pos[OF True False] eq show ?thesis by simp
    next
      case jf: False
      with False eq have "str_nat (nat i) = str_nat (nat j)"
        by (simp add: str_int_def)
      then have "nat i = nat j" by (rule str_nat_inj)
      with False jf show ?thesis by simp
    qed
  qed
qed

lemma str_int_no_d: "CHR ''d'' \<notin> set (str_int i)"
proof -
  have "CHR ''d'' \<notin> set (str_nat n)" for n
    using str_nat_digits[of n] is_digit_not_d by (auto simp: list_all_iff)
  then show ?thesis by (simp add: str_int_def)
qed

lemma suffix_after_last_d:
  assumes "a @ ''_d'' @ x = b @ ''_d'' @ y" and "CHR ''d'' \<notin> set x" and "CHR ''d'' \<notin> set y"
  shows "x = y"
proof -
  have tw: "takeWhile (\<lambda>c. c \<noteq> CHR ''d'') (rev (p @ ''_d'' @ z)) = rev z"
    if "CHR ''d'' \<notin> set z" for p z :: string
  proof -
    have "rev (p @ ''_d'' @ z) = rev z @ CHR ''d'' # (CHR ''_'' # rev p)" by simp
    moreover have "takeWhile (\<lambda>c. c \<noteq> CHR ''d'') (rev z @ CHR ''d'' # (CHR ''_'' # rev p)) = rev z"
      using that by (subst takeWhile_append2) auto
    ultimately show ?thesis by simp
  qed
  from assms(1) have "takeWhile (\<lambda>c. c \<noteq> CHR ''d'') (rev (a @ ''_d'' @ x)) =
      takeWhile (\<lambda>c. c \<noteq> CHR ''d'') (rev (b @ ''_d'' @ y))" by simp
  then have "rev x = rev y" using tw[OF assms(2)] tw[OF assms(3)] by simp
  then show ?thesis by simp
qed

lemma collection_name_dim_inj:
  "base1 @ ''_d'' @ str_int d1 = base2 @ ''_d'' @ str_int d2 \<Longrightarrow> d1 = d2"
  using suffix_after_last_d[of base1 "str_int d1" base2 "str_int d2"] str_int_no_d str_int_inj
  by blast

lemma QdrantStore_init_collection:
  "QdrantStore_init env ans d cfg = (Inr st, calls) \<Longrightarrow>
   st_dim st = d \<and> st_collection st = cfg_collection (st_cfg st) @ ''_d'' @ str_int d \<and>
   (\<forall>c \<in> set calls. call_collection c = None \<or> call_collection c = Some (st_collection st))"
  by (auto simp: QdrantStore_init_def ensure_collection_def Let_def
           split: option.splits if_splits prod.splits)

lemma upsert_calls:
  "\<forall>c \<in> set (snd (upsert lib st vs ps)). call_collection c = Some (st_collection st)"
  by (simp add: upsert_def)


text \<open>
  Claim C6.  Two stores constructed with distinct embedding dimensions have distinct
  collection names, whatever their configurations are: the decimal text of the
  dimension is what follows the last \<open>_d\<close> of the name.  Every request a store sends
  while it is constructed, upserts or searches names its own collection, so no request
  of the one store names the collection of the other.
\<close>

theorem distinct_dimensions_distinct_collections:
  assumes "d1 \<noteq> d2"
    and "QdrantStore_init env1 ans1 d1 cfg1 = (Inr st1, calls1)"
    and "QdrantStore_init env2 ans2 d2 cfg2 = (Inr st2, calls2)"
  shows "st_collection st1 \<noteq> st_collection st2 \<and>
     (\<forall>a \<in> set calls1 \<union> set (snd (upsert lib st1 vs1 ps1)) \<union> {search_request st1 q1 k1 v1}.
      \<forall>b \<in> set calls2 \<union> set (snd (upsert lib st2 vs2 ps2)) \<union> {search_request st2 q2 k2 v2}.
        call_collection a = None \<or> call_collection b = None \<or>
        call_collection a \<noteq> call_collection b)"
proof -
  from QdrantStore_init_collection[OF assms(2)] have
    n1: "st_collection st1 = cfg_collection (st_cfg st1) @ ''_d'' @ str_int d1"
    and c1: "\<forall>c \<in> set calls1. call_collection c = None \<or> call_collection c = Some (st_collection st1)"
    by blast+
  from QdrantStore_init_collection[OF assms(3)] have
    n2: "st_collection st2 = cfg_collection (st_cfg st2) @ ''_d'' @ str_int d2"
    and c2: "\<forall>c \<in> set calls2. call_collection c = None \<or> call_collection c = Some (st_collection st2)"
    by blast+
  have ne: "st_collection st1 \<noteq> st_collection st2"
    using collection_name_dim_inj[of "cfg_collection (st_cfg st1)" d1 "cfg_collection (st_cfg st2)" d2]
      assms(1) unfolding n1 n2 by blast
  have a: "call_collection a = None \<or> call_collection a = Some (st_collection st1)"
    if "a \<in> set calls1 \<union> set (snd (upsert lib st1 vs1 ps1)) \<union> {search_request st1 q1 k1 v1}" for a
    using that c1 upsert_calls[of lib st1 vs1 ps1] by (auto simp: search_request_def)
  have b: "call_collection b = None \<or> call_collection b = Some (st_collection st2)"
    if "b \<in> set calls2 \<union> set (snd (upsert lib st2 vs2 ps2)) \<union> {search_request st2 q2 k2 v2}" for b
    using that c2 upsert_calls[of lib st2 vs2 ps2] by (auto simp: search_request_def)
  show ?thesis
  proof (intro conjI ballI)
    show "st_collection st1 \<noteq> st_collection st2" by (rule ne)
  next
    fix x y
    assume "x \<in> set calls1 \<union> set (snd (upsert lib st1 vs1 ps1)) \<union> {search_request st1 q1 k1 v1}"
      and "y \<in> set calls2 \<union> set (snd (upsert lib st2 vs2 ps2)) \<union> {search_request st2 q2 k2 v2}"
    from a[OF this(1)] b[OF this(2)] ne
    show "call_collection x = None \<or> call_collection y = None \<or> call_collection x \<noteq> call_collection y"
      by auto
  qed
qed


theorem distinct_dimensions_distinct_collections_witness:
  "(384::int) \<noteq> 768 \<and>
   st_collection
     \<lparr>st_dim = 384,
      st_cfg = \<lparr>cfg_url = ''http://q'', cfg_api_key = None,
                cfg_collection = ''visionvault_chunks''\<rparr>,
      st_collection = ''visionvault_chunks_d384''\<rparr> \<noteq>
   st_collection
     \<lparr>st_dim = 768,
      st_cfg = \<lparr>cfg_url = ''http://q'', cfg_api_key = None,
                cfg_collection = ''visionvault_chunks''\<rparr>,
      st_collection = ''visionvault_chunks_d768''\<rparr>"
proof -
  have d: "(384::int) \<noteq> 768" by simp
  have s1: "QdrantStore_init
       \<lparr>QDRANT_URL = Some ''http://q'', QDRANT_API_KEY = None, QDRANT_COLLECTION = None\<rparr>
       \<lparr>existing_collections = Some [], create_collection_ok = True,
          create_payload_index_ok = True\<rparr> 384 None =
     (Inr \<lparr>st_dim = 384,
            st_cfg = \<lparr>cfg_url = ''http://q'', cfg_api_key = None,
                      cfg_collection = ''visionvault_chunks''\<rparr>,
            st_collection = ''visionvault_chunks_d384''\<rparr>,
      [GetCollections, CreateCollection ''visionvault_chunks_d384'' 384,
       CreatePayloadIndex ''visionvault_chunks_d384'' ''video_id''] :: unit client_call list)"
    by code_simp
  have s2: "QdrantStore_init
       \<lparr>QDRANT_URL = Some ''http://q'', QDRANT_API_KEY = None, QDRANT_COLLECTION = None\<rparr>
       \<lparr>existing_collections = Some [''visionvault_chunks_d768''],
          create_collection_ok = True, create_payload_index_ok = True\<rparr> 768 None =
     (Inr \<lparr>st_dim = 768,
            st_cfg = \<lparr>cfg_url = ''http://q'', cfg_api_key = None,
                      cfg_collection = ''visionvault_chunks''\<rparr>,
            st_collection = ''visionvault_chunks_d768''\<rparr>,
      [GetCollections] :: unit client_call list)"
    by code_simp
  from distinct_dimensions_distinct_collections [OF d s1 s2] d show ?thesis
    by blast
qed

lemma prefix_set_subset: "prefix p s \<Longrightarrow> set p \<subseteq> set s"
  by (auto simp: prefix_def)

lemma py_remove_absent:
  assumes "c \<in> set pat" and "c \<notin> set s"
  shows "py_remove pat s = s"
proof -
  have "py_remove_aux pat 0 t = t" if "c \<notin> set t" for t
    using that
  proof (induction t)
    case Nil
    then show ?case by simp
  next
    case (Cons x xs)
    have "\<not> prefix pat (x # xs)"
      using prefix_set_subset[of pat "x # xs"] assms(1) Cons.prems by blast
    then show ?case using Cons by simp
  qed
  then show ?thesis using assms(2) by (simp add: py_remove_def)
qed

lemma strip_ends_id:
  assumes "s \<noteq> []" and "\<not> P (hd s)" and "\<not> P (last s)"
  shows "rev (dropWhile P (rev (dropWhile P s))) = s"
proof -
  have 1: "dropWhile P s = s" using assms(1,2) by (cases s) auto
  obtain y ys where r: "rev s = y # ys" using assms(1) by (cases "rev s") auto
  have "hd (rev s) = last s" using assms(1) by (simp add: hd_rev)
  then have "\<not> P y" using r assms(3) by simp
  then have 2: "dropWhile P (rev s) = rev s" unfolding r by simp
  show ?thesis by (simp add: 1 2)
qed

lemma take_take_drop: "take n xs @ take m (drop n xs) = take (n + m) xs"
  by (simp add: take_add)

lemma hyphenate_pieces:
  "take 8 h @ take 4 (drop 8 h) @ take 4 (drop 12 h) @ take 4 (drop 16 h) @ drop 20 h = h"
proof -
  have a: "take 8 h @ take 4 (drop 8 h) = take 12 h"
    using take_take_drop[of 8 h 4] by simp
  have b: "take 12 h @ take 4 (drop 12 h) = take 16 h"
    using take_take_drop[of 12 h 4] by simp
  have c: "take 16 h @ take 4 (drop 16 h) = take 20 h"
    using take_take_drop[of 16 h 4] by simp
  have "take 8 h @ take 4 (drop 8 h) @ take 4 (drop 12 h) @ take 4 (drop 16 h) @ drop 20 h
      = (((take 8 h @ take 4 (drop 8 h)) @ take 4 (drop 12 h)) @ take 4 (drop 16 h)) @ drop 20 h"
    by simp
  also have "\<dots> = take 20 h @ drop 20 h"
    by (simp only: a b c)
  finally show ?thesis by simp
qed

lemma filter_hyphenate:
  assumes "CHR ''-'' \<notin> set h"
  shows "filter (\<lambda>c. c \<noteq> CHR ''-'') (hyphenate h) = h"
proof -
  have f: "filter (\<lambda>c. c \<noteq> CHR ''-'') t = t" if "set t \<subseteq> set h" for t
    using that assms by (auto simp: filter_id_conv)
  have "filter (\<lambda>c. c \<noteq> CHR ''-'') (hyphenate h) =
     take 8 h @ take 4 (drop 8 h) @ take 4 (drop 12 h) @ take 4 (drop 16 h) @ drop 20 h"
    unfolding hyphenate_def
    by (simp add: f set_take_subset set_drop_subset
          order_trans[OF set_take_subset set_drop_subset])
  then show ?thesis by (simp only: hyphenate_pieces)
qed

lemma lower_hex_facts:
  assumes "is_lower_hex_digit c"
  shows "c \<noteq> CHR ''-''" "c \<noteq> CHR '':''" "c \<noteq> CHR ''{''" "c \<noteq> CHR ''}''"
    "\<not> is_py_space c" "is_hex_digit c" "hex_lower c = c"
  using assms
  by (auto simp: is_lower_hex_digit_def is_py_space_def is_hex_digit_def hex_lower_def Let_def)

lemma set_hyphenate: "set (hyphenate h) \<subseteq> insert (CHR ''-'') (set h)"
  unfolding hyphenate_def
  by (auto dest: in_set_takeD in_set_dropD)

lemma hd_hyphenate: "length h = 32 \<Longrightarrow> hd (hyphenate h) = hd h"
  by (cases h) (auto simp: hyphenate_def)

lemma last_hyphenate: "length h = 32 \<Longrightarrow> last (hyphenate h) = last h"
  by (simp add: hyphenate_def last_drop)

lemma hyphenate_nonempty: "hyphenate h \<noteq> []"
  by (simp add: hyphenate_def)

lemma minus_in_hyphenate: "CHR ''-'' \<in> set (hyphenate h)"
  by (simp add: hyphenate_def)

lemma cpython_uuid_str_canonical:
  assumes len: "length h = 32" and lower: "list_all is_lower_hex_digit h"
  shows "cpython_uuid_str (hyphenate h) = Some (hyphenate h)"
proof -
  have all: "\<And>c. c \<in> set h \<Longrightarrow> is_lower_hex_digit c"
    using lower by (simp add: list_all_iff)
  have ne: "h \<noteq> []" using len by auto
  have nocolon: "CHR '':'' \<notin> set (hyphenate h)"
    using set_hyphenate[of h] all lower_hex_facts(2) by auto
  have r1: "py_remove ''urn:'' (hyphenate h) = hyphenate h"
    by (rule py_remove_absent[of "CHR '':''"]) (simp_all add: nocolon)
  have r2: "py_remove ''uuid:'' (hyphenate h) = hyphenate h"
    by (rule py_remove_absent[of "CHR '':''"]) (simp_all add: nocolon)
  have hdl: "is_lower_hex_digit (hd h)" "is_lower_hex_digit (last h)"
    using ne all by simp_all
  have st: "py_strip_chars ''{}'' (hyphenate h) = hyphenate h"
    unfolding py_strip_chars_def
    using lower_hex_facts(3,4)[OF hdl(1)] lower_hex_facts(3,4)[OF hdl(2)]
    by (intro strip_ends_id) (simp_all add: hyphenate_nonempty hd_hyphenate[OF len] last_hyphenate[OF len])
  have nominus: "CHR ''-'' \<notin> set h" using all lower_hex_facts(1) by blast
  have hex: "list_all is_hex_digit h"
    using all lower_hex_facts(6) by (simp add: list_all_iff)
  have low: "map hex_lower h = h"
    using all lower_hex_facts(7) by (simp add: map_idI)
  show ?thesis
    unfolding cpython_uuid_str_def Let_def r1 r2 st filter_hyphenate[OF nominus]
    using len hex low by simp
qed

lemma py_strip_canonical:
  assumes len: "length h = 32" and lower: "list_all is_lower_hex_digit h"
  shows "py_strip (hyphenate h) = hyphenate h"
proof -
  have all: "\<And>c. c \<in> set h \<Longrightarrow> is_lower_hex_digit c"
    using lower by (simp add: list_all_iff)
  have ne: "h \<noteq> []" using len by auto
  have hdl: "is_lower_hex_digit (hd h)" "is_lower_hex_digit (last h)"
    using ne all by simp_all
  show ?thesis
    unfolding py_strip_def
    using lower_hex_facts(5)[OF hdl(1)] lower_hex_facts(5)[OF hdl(2)]
    by (intro strip_ends_id) (simp_all add: hyphenate_nonempty hd_hyphenate[OF len] last_hyphenate[OF len])
qed

lemma not_isdigit_hyphenate: "\<not> py_isdigit (hyphenate h)"
  using minus_in_hyphenate[of h] is_digit_not_minus
  by (auto simp: py_isdigit_def list_all_iff)


lemma py_or_str: "s \<noteq> [] \<Longrightarrow> py_or (PStr s) b = PStr s"
  by (simp add: py_or_def py_truthy_def)


text \<open>
  Claim C5, as stated, fails for a well-formed UUID written in upper case: the store
  returns \<open>str(uuid.UUID(s))\<close>, the canonical lower-case text, not the supplied string.
\<close>

theorem uppercase_uuid_not_preserved_counterexample:
  "as_qdrant_point_id example_lib (PStr ''A0EEBC99-9C0B-4EF8-BB6D-6BB9BD380A11'') ''v1:0.0:2.0:0'' =
     StrId ''a0eebc99-9c0b-4ef8-bb6d-6bb9bd380a11'' \<and>
   StrId ''a0eebc99-9c0b-4ef8-bb6d-6bb9bd380a11'' \<noteq> StrId ''A0EEBC99-9C0B-4EF8-BB6D-6BB9BD380A11''"
  by code_simp


text \<open>
  Claim C5, amended.  A supplied id \<open>"42"\<close> becomes the integer 42.  A supplied string
  that \<open>uuid.UUID\<close> accepts is replaced by its canonical text \<open>str(uuid.UUID(s))\<close>; a
  string already in canonical form (32 lower-case hexadecimal digits in groups of
  8-4-4-4-12) is returned unchanged.  A supplied non-empty string that is neither
  numeric nor accepted by \<open>uuid.UUID\<close> is replaced by the UUID5 of the key built from
  video id, start, end and sequence index, and that key is the same for payloads that
  agree on the three fields and the index.
\<close>

theorem point_id_normalization:
  "(p_point_id p = PStr ''42'' \<longrightarrow> upsert_point_id lib p i = IntId 42) \<and>
   (p_point_id p = PStr s \<and> py_strip s \<noteq> [] \<and> \<not> py_isdigit (py_strip s) \<and>
    uuid_str lib (py_strip s) = Some u \<longrightarrow> upsert_point_id lib p i = StrId u) \<and>
   (p_point_id p = PStr (hyphenate h) \<and> length h = 32 \<and> list_all is_lower_hex_digit h \<and>
    uuid_str lib = cpython_uuid_str \<longrightarrow> upsert_point_id lib p i = StrId (hyphenate h)) \<and>
   (p_point_id p = PStr s \<and> s \<noteq> [] \<and> \<not> py_isdigit (py_strip s) \<and>
    (py_strip s = [] \<or> uuid_str lib (py_strip s) = None) \<longrightarrow>
      upsert_point_id lib p i = StrId (uuid5_url lib (fallback_key lib p i))) \<and>
   (p_video_id p = p_video_id p' \<and> p_start p = p_start p' \<and> p_end p = p_end p' \<longrightarrow>
      fallback_key lib p i = fallback_key lib p' i)"
proof (intro conjI impI)
  assume "p_point_id p = PStr ''42''"
  then show "upsert_point_id lib p i = IntId 42"
    by (simp add: upsert_point_id_def py_or_str as_qdrant_point_id_def py_strip_def
          is_py_space_def py_isdigit_def is_digit_def nat_of_digits_def digit_value_def)
next
  assume a: "p_point_id p = PStr s \<and> py_strip s \<noteq> [] \<and> \<not> py_isdigit (py_strip s) \<and>
    uuid_str lib (py_strip s) = Some u"
  then have "s \<noteq> []" by (auto simp: py_strip_def)
  with a show "upsert_point_id lib p i = StrId u"
    by (simp add: upsert_point_id_def py_or_str as_qdrant_point_id_def)
next
  assume a: "p_point_id p = PStr (hyphenate h) \<and> length h = 32 \<and> list_all is_lower_hex_digit h \<and>
    uuid_str lib = cpython_uuid_str"
  then have len: "length h = 32" and low: "list_all is_lower_hex_digit h" by simp_all
  from a show "upsert_point_id lib p i = StrId (hyphenate h)"
    by (simp add: upsert_point_id_def py_or_str[OF hyphenate_nonempty] as_qdrant_point_id_def
          py_strip_canonical[OF len low] hyphenate_nonempty not_isdigit_hyphenate
          cpython_uuid_str_canonical[OF len low])
next
  assume a: "p_point_id p = PStr s \<and> s \<noteq> [] \<and> \<not> py_isdigit (py_strip s) \<and>
    (py_strip s = [] \<or> uuid_str lib (py_strip s) = None)"
  then show "upsert_point_id lib p i = StrId (uuid5_url lib (fallback_key lib p i))"
    by (auto simp: upsert_point_id_def py_or_str as_qdrant_point_id_def Let_def)
next
  assume "p_video_id p = p_video_id p' \<and> p_start p = p_start p' \<and> p_end p = p_end p'"
  then show "fallback_key lib p i = fallback_key lib p' i"
    by (simp add: fallback_key_def)
qed


theorem point_id_normalization_witness:
  "upsert_point_id example_lib
     \<lparr>p_point_id = PStr ''42'', p_chunk_id = PNone, p_video_id = Some ''v1'',
        p_start = Some 0, p_end = Some 2, p_other = ()\<rparr> 3 = IntId 42 \<and>
   upsert_point_id example_lib
     \<lparr>p_point_id = PStr ''chunk-7'', p_chunk_id = PNone, p_video_id = Some ''v1'',
        p_start = Some 0, p_end = Some 2, p_other = ()\<rparr> 3 = StrId ''uuid5:v1:0.0:2.0:3'' \<and>
   upsert_point_id example_lib
     \<lparr>p_point_id = PStr ''a0eebc99-9c0b-4ef8-bb6d-6bb9bd380a11'', p_chunk_id = PNone,
        p_video_id = Some ''v1'', p_start = Some 0, p_end = Some 2, p_other = ()\<rparr> 3 =
     StrId ''a0eebc99-9c0b-4ef8-bb6d-6bb9bd380a11'' \<and>
   upsert_point_id example_lib
     \<lparr>p_point_id = PStr ''A0EEBC99-9C0B-4EF8-BB6D-6BB9BD380A11'', p_chunk_id = PNone,
        p_video_id = Some ''v1'', p_start = Some 0, p_end = Some 2, p_other = ()\<rparr> 3 =
     StrId ''a0eebc99-9c0b-4ef8-bb6d-6bb9bd380a11'' \<and>
   fallback_key example_lib
     \<lparr>p_point_id = PStr ''42'', p_chunk_id = PNone, p_video_id = Some ''v1'',
        p_start = Some 0, p_end = Some 2, p_other = ()\<rparr> 3 =
   fallback_key example_lib
     \<lparr>p_point_id = PStr ''chunk-7'', p_chunk_id = PNone, p_video_id = Some ''v1'',
        p_start = Some 0, p_end = Some 2, p_other = ()\<rparr> 3"
proof -
  let ?p = "\<lambda>s. \<lparr>p_point_id = PStr s, p_chunk_id = PNone, p_video_id = Some ''v1'',
        p_start = Some 0, p_end = Some 2, p_other = ()\<rparr>"
  have h1: "py_strip ''chunk-7'' = ''chunk-7''" by code_simp
  have h2: "\<not> py_isdigit ''chunk-7''" by code_simp
  have h3: "uuid_str example_lib ''chunk-7'' = None" by code_simp
  have h4: "fallback_key example_lib (?p ''chunk-7'') 3 = ''v1:0.0:2.0:3''" by code_simp
  have h5: "hyphenate ''a0eebc999c0b4ef8bb6d6bb9bd380a11'' = ''a0eebc99-9c0b-4ef8-bb6d-6bb9bd380a11''"
    by code_simp
  have h6: "list_all is_lower_hex_digit ''a0eebc999c0b4ef8bb6d6bb9bd380a11''" by code_simp
  have h7: "uuid_str example_lib = cpython_uuid_str" by (simp add: example_lib_def)
  have h8: "uuid5_url example_lib ''v1:0.0:2.0:3'' = ''uuid5:v1:0.0:2.0:3''"
    by (simp add: example_lib_def)
  have a: "upsert_point_id example_lib (?p ''42'') 3 = IntId 42"
    using point_id_normalization [of "?p ''42''" example_lib 3, THEN conjunct1] by simp
  have b: "upsert_point_id example_lib (?p ''chunk-7'') 3 = StrId ''uuid5:v1:0.0:2.0:3''"
    using point_id_normalization [of "?p ''chunk-7''" example_lib 3 "''chunk-7''",
        THEN conjunct2, THEN conjunct2, THEN conjunct2, THEN conjunct1] h1 h2 h3 h4 h8
    by simp
  have c: "upsert_point_id example_lib (?p ''a0eebc99-9c0b-4ef8-bb6d-6bb9bd380a11'') 3 =
      StrId ''a0eebc99-9c0b-4ef8-bb6d-6bb9bd380a11''"
    using point_id_normalization [of "?p (hyphenate ''a0eebc999c0b4ef8bb6d6bb9bd380a11'')"
        example_lib 3 _ _ "''a0eebc999c0b4ef8bb6d6bb9bd380a11''",
        THEN conjunct2, THEN conjunct2, THEN conjunct1] h6 h7
    unfolding h5 by simp
  have h9: "py_strip ''A0EEBC99-9C0B-4EF8-BB6D-6BB9BD380A11'' =
      ''A0EEBC99-9C0B-4EF8-BB6D-6BB9BD380A11''"
    by code_simp
  have h10: "\<not> py_isdigit ''A0EEBC99-9C0B-4EF8-BB6D-6BB9BD380A11''" by code_simp
  have h11: "uuid_str example_lib ''A0EEBC99-9C0B-4EF8-BB6D-6BB9BD380A11'' =
      Some ''a0eebc99-9c0b-4ef8-bb6d-6bb9bd380a11''"
    by code_simp
  have d: "upsert_point_id example_lib (?p ''A0EEBC99-9C0B-4EF8-BB6D-6BB9BD380A11'') 3 =
      StrId ''a0eebc99-9c0b-4ef8-bb6d-6bb9bd380a11''"
    using point_id_normalization [of "?p ''A0EEBC99-9C0B-4EF8-BB6D-6BB9BD380A11''"
        example_lib 3 "''A0EEBC99-9C0B-4EF8-BB6D-6BB9BD380A11''"
        "''a0eebc99-9c0b-4ef8-bb6d-6bb9bd380a11''",
        THEN conjunct2, THEN conjunct1] h9 h10 h11
    by simp
  have e: "fallback_key example_lib (?p ''42'') 3 = fallback_key example_lib (?p ''chunk-7'') 3"
    using point_id_normalization [of "?p ''42''" example_lib 3 _ _ _ "?p ''chunk-7''",
        THEN conjunct2, THEN conjunct2, THEN conjunct2, THEN conjunct2]
    by simp
  from a b c d e show ?thesis by simp
qed

section \<open>Properties of the ingestion\<close>


lemma bindE_check_cancel_set:
  "CANCEL_INGEST w \<Longrightarrow> bindE check_cancel k w = (Inl (RuntimeError ''Ingest cancelled''), w)"
  by (simp add: bindE_def check_cancel_def)

lemma ingest_from_audio_cancelled:
  "CANCEL_INGEST w \<Longrightarrow>
   ingest_from_audio c fps max_frames enable_captions w =
     (Inl (RuntimeError ''Ingest cancelled''), w)"
  unfolding ingest_from_audio_def by (rule bindE_check_cancel_set)

lemma ingest_video_unfold:
  "ingest_video c source_type source fps max_frames enable_captions w =
     (let w1 = w\<lparr>CANCEL_INGEST := False, trace := trace w @ [WriteFile ''meta.json'']\<rparr>;
          w2 = (if cancel_requested_during c AtSetup then request_cancel_ingest w1 else w1)
      in case acquire_source c source_type source w2 of
           (Inl e, w3) \<Rightarrow> (Inl e, w3)
         | (Inr u, w3) \<Rightarrow> ingest_from_audio c fps max_frames enable_captions w3)"
  by (simp add: ingest_video_def bindE_def log_event_def concurrently_def Let_def)

lemma ingest_video_resets_flag:
  "ingest_video c source_type source fps max_frames enable_captions (w\<lparr>CANCEL_INGEST := b\<rparr>) =
   ingest_video c source_type source fps max_frames enable_captions w"
  by (simp add: ingest_video_unfold)

lemma acquire_source_cancelled:
  assumes "CANCEL_INGEST w"
  shows "source_type = ''youtube'' \<Longrightarrow>
           acquire_source c source_type source w = (Inl (RuntimeError ''Ingest cancelled''), w)"
    and "source_type = ''local'' \<Longrightarrow> local_exists c source \<Longrightarrow>
           \<exists>w'. acquire_source c source_type source w = (Inr (), w') \<and> CANCEL_INGEST w' \<and>
                trace w' = trace w @ [CopyLocal source]"
  using assms
  by (auto simp: acquire_source_def bindE_def check_cancel_def log_event_def concurrently_def
        request_cancel_ingest_def)


text \<open>
  Claim C8, as stated, fails: \<open>ingest_video\<close> resets the flag before anything else, so
  a cancellation requested before the ingest starts is not seen by any of its checks.
  Here the ingest runs to its end and writes to the vector store.
\<close>

theorem cancel_before_start_ignored_counterexample:
  "CANCEL_INGEST (request_cancel_ingest idle_world) \<and>
   fst (ingest_video example_collab ''local'' ''/tmp/x.mp4'' 1 None True
          (request_cancel_ingest idle_world)) =
     Inr \<lparr>r_video_id = ''0123456789'', chunks_indexed = 1\<rparr> \<and>
   filter is_store_write
     (trace (snd (ingest_video example_collab ''local'' ''/tmp/x.mp4'' 1 None True
                    (request_cancel_ingest idle_world)))) =
     [FaissAdd [[1, 0]]
        [\<lparr>video_id = ''0123456789'', c_start = 0, c_end = 2, transcript = ''hello'',
           caption = ''a frame | a frame'', frame_file = ''frame_000001.jpg''\<rparr>],
      BuildIndex
        [\<lparr>video_id = ''0123456789'', c_start = 0, c_end = 2, transcript = ''hello'',
           caption = ''a frame | a frame'', frame_file = ''frame_000001.jpg''\<rparr>]]"
  by code_simp

text \<open>
  Claim C8, amended.  A cancellation requested before an ingest starts is cleared by
  the reset at the start of the ingest, which then runs as if none had been requested.
  A cancellation requested after that reset and before the first cancellation check
  of the ingest (source kind \<open>youtube\<close>, or \<open>local\<close> with an existing file) is observed
  by that check: the ingest ends with the error \<open>Ingest cancelled\<close> and has written
  nothing to a vector store.
\<close>

theorem cancel_before_start_is_reset:
  "ingest_video c source_type source fps max_frames enable_captions (request_cancel_ingest w) =
     ingest_video c source_type source fps max_frames enable_captions w \<and>
   (cancel_requested_during c AtSetup \<and>
    (source_type = ''youtube'' \<or> source_type = ''local'' \<and> local_exists c source) \<longrightarrow>
      fst (ingest_video c source_type source fps max_frames enable_captions w) =
        Inl (RuntimeError ''Ingest cancelled'') \<and>
      filter is_store_write
        (trace (snd (ingest_video c source_type source fps max_frames enable_captions w))) =
      filter is_store_write (trace w))"
proof (rule conjI, goal_cases)
  case 1
  show ?case
    unfolding request_cancel_ingest_def by (rule ingest_video_resets_flag)
next
  case 2
  show ?case
  proof (rule impI)
  assume a: "cancel_requested_during c AtSetup \<and>
    (source_type = ''youtube'' \<or> source_type = ''local'' \<and> local_exists c source)"
  define w2 where "w2 = request_cancel_ingest
      (w\<lparr>CANCEL_INGEST := False, trace := trace w @ [WriteFile ''meta.json'']\<rparr>)"
  have flag: "CANCEL_INGEST w2" and tr: "trace w2 = trace w @ [WriteFile ''meta.json'']"
    by (simp_all add: w2_def request_cancel_ingest_def)
  have unf: "ingest_video c source_type source fps max_frames enable_captions w =
      (case acquire_source c source_type source w2 of
         (Inl e, w3) \<Rightarrow> (Inl e, w3)
       | (Inr u, w3) \<Rightarrow> ingest_from_audio c fps max_frames enable_captions w3)"
    using a by (simp add: ingest_video_unfold w2_def)
  have "\<exists>w'. ingest_video c source_type source fps max_frames enable_captions w =
          (Inl (RuntimeError ''Ingest cancelled''), w') \<and>
          filter is_store_write (trace w') = filter is_store_write (trace w)"
  proof (cases "source_type = ''youtube''")
    case True
    show ?thesis
      unfolding unf acquire_source_cancelled(1)[OF flag True] by (simp add: tr)
  next
    case False
    with a have loc: "source_type = ''local''" "local_exists c source" by auto
    from acquire_source_cancelled(2)[OF flag loc] obtain w' where
      w': "acquire_source c source_type source w2 = (Inr (), w')" "CANCEL_INGEST w'"
        "trace w' = trace w2 @ [CopyLocal source]"
      by blast
    show ?thesis
      unfolding unf w'(1) by (simp add: ingest_from_audio_cancelled[OF w'(2)] w'(3) tr)
  qed
  then show "fst (ingest_video c source_type source fps max_frames enable_captions w) =
        Inl (RuntimeError ''Ingest cancelled'') \<and>
      filter is_store_write
        (trace (snd (ingest_video c source_type source fps max_frames enable_captions w))) =
      filter is_store_write (trace w)"
    by auto
  qed
qed



theorem cancel_before_start_is_reset_witness:
  "cancel_requested_during example_collab_cancel_at_setup AtSetup \<and>
   local_exists example_collab_cancel_at_setup ''/tmp/x.mp4'' \<and>
   fst (ingest_video example_collab_cancel_at_setup ''local'' ''/tmp/x.mp4'' 1 None True
          idle_world) = Inl (RuntimeError ''Ingest cancelled'') \<and>
   filter is_store_write
     (trace (snd (ingest_video example_collab_cancel_at_setup ''local'' ''/tmp/x.mp4'' 1 None
                    True idle_world))) = []"
proof -
  have h1: "cancel_requested_during example_collab_cancel_at_setup AtSetup"
    by (simp add: example_collab_cancel_at_setup_def)
  have h2: "local_exists example_collab_cancel_at_setup ''/tmp/x.mp4''"
    by (simp add: example_collab_cancel_at_setup_def example_collab_def)
  have h3: "filter is_store_write (trace idle_world) = []"
    by (simp add: idle_world_def)
  from cancel_before_start_is_reset [of example_collab_cancel_at_setup "''local''"
      "''/tmp/x.mp4''" 1 None True idle_world] h1 h2 h3
  show ?thesis by simp
qed

lemma adds_only_bindE:
  assumes "adds_only P m" and "\<And>x. adds_only P (f x)"
  shows "adds_only P (bindE m f)"
  unfolding adds_only_def
proof
  fix w
  from assms(1) obtain evs where m: "trace (snd (m w)) = trace w @ evs" "list_all P evs"
    unfolding adds_only_def by blast
  show "\<exists>evs. trace (snd (bindE m f w)) = trace w @ evs \<and> list_all P evs"
  proof (cases "m w")
    case (Pair r w')
    show ?thesis
    proof (cases r)
      case (Inl e)
      then show ?thesis using m Pair by (auto simp: bindE_def)
    next
      case (Inr x)
      from assms(2)[of x] obtain evs' where
        f: "trace (snd (f x w')) = trace w' @ evs'" "list_all P evs'"
        unfolding adds_only_def by blast
      have "trace (snd (bindE m f w)) = trace w @ (evs @ evs')"
        using m f Pair Inr by (simp add: bindE_def)
      moreover have "list_all P (evs @ evs')" using m f by simp
      ultimately show ?thesis by blast
    qed
  qed
qed

lemma adds_only_silent:
  "adds_only P (returnE x)" "adds_only P (raiseE e)" "adds_only P check_cancel"
  "adds_only P (concurrently c st)" "adds_only P (lift_result r)" "adds_only P (lift_outcome r')"
  "adds_only P (\<lambda>w. (Inr (), w\<lparr>CANCEL_INGEST := b\<rparr>))"
  by (auto simp: adds_only_def returnE_def raiseE_def check_cancel_def concurrently_def
        lift_result_def lift_outcome_def request_cancel_ingest_def split: option.splits)

lemma adds_only_log_event: "P ev \<Longrightarrow> adds_only P (log_event ev)"
  by (simp add: adds_only_def log_event_def)

lemma adds_only_log_events: "list_all P evs \<Longrightarrow> adds_only P (log_events evs)"
  by (auto simp: adds_only_def log_events_def)

lemma adds_only_try_pass: "adds_only P m \<Longrightarrow> adds_only P (try_pass m)"
  by (auto simp: adds_only_def try_pass_def split: prod.splits) (metis snd_conv)

lemma no_caption_store_stage:
  "adds_only (\<lambda>ev. \<not> is_caption_call ev) (store_stage c embs d chunk_dicts)"
  unfolding store_stage_def
  by (auto split: prod.splits
        intro!: adds_only_bindE adds_only_silent adds_only_log_event adds_only_log_events
        simp: list_all_iff)

lemma no_caption_from_chunks:
  "adds_only (\<lambda>ev. \<not> is_caption_call ev) (ingest_from_chunks c chunk_dicts)"
  unfolding ingest_from_chunks_def Let_def
  by (auto intro!: adds_only_bindE adds_only_silent adds_only_log_event adds_only_try_pass
        no_caption_store_stage)

lemma no_caption_frames_stage:
  "adds_only (\<lambda>ev. \<not> is_caption_call ev) (frames_stage c fps max_frames)"
  unfolding frames_stage_def
  by (auto intro!: adds_only_bindE adds_only_silent adds_only_log_event)

lemma no_caption_acquire_source:
  "adds_only (\<lambda>ev. \<not> is_caption_call ev) (acquire_source c source_type source)"
  unfolding acquire_source_def
  by (auto intro!: adds_only_bindE adds_only_silent adds_only_log_event)

lemma no_caption_from_audio:
  "adds_only (\<lambda>ev. \<not> is_caption_call ev) (ingest_from_audio c fps max_frames False)"
  unfolding ingest_from_audio_def Let_def caption_stage_def
  by (auto intro!: adds_only_bindE adds_only_silent adds_only_log_event
        no_caption_frames_stage no_caption_from_chunks)

lemma captions_off_never_calls_captioner:
  "\<exists>evs. trace (snd (ingest_video c source_type source fps max_frames False w)) = trace w @ evs \<and>
         list_all (\<lambda>ev. \<not> is_caption_call ev) evs"
proof -
  have "adds_only (\<lambda>ev. \<not> is_caption_call ev)
          (ingest_video c source_type source fps max_frames False)"
    unfolding ingest_video_def
    by (auto intro!: adds_only_bindE adds_only_silent adds_only_log_event
          no_caption_acquire_source no_caption_from_audio)
  then show ?thesis unfolding adds_only_def by blast
qed


text \<open>
  Claim C7 at a failing input: captions are disabled, two frames are extracted (at 0
  and 1 second) and the transcript has one segment from 0 to 2 seconds.  The
  captioning collaborator is not called (no \<open>CaptionFrames\<close> event), but the chunk's
  caption is the separator \<open>" | "\<close> that joins the two empty captions, not the empty
  string.
\<close>

theorem captions_disabled_caption_is_separator:
  "ingest_video example_collab ''local'' ''/tmp/x.mp4'' 1 None False idle_world =
     (Inr \<lparr>r_video_id = ''0123456789'', chunks_indexed = 1\<rparr>,
      \<lparr>CANCEL_INGEST = False,
         trace =
           [WriteFile ''meta.json'', CopyLocal ''/tmp/x.mp4'', ExtractAudio,
            ExtractFrames 1, TranscribeAudio, WriteFile ''transcript.json'',
            WriteFile ''chunks.json'', LoadEmbedder, Encode [''hello  |''],
            FaissAdd [[1, 0]]
              [\<lparr>video_id = ''0123456789'', c_start = 0, c_end = 2, transcript = ''hello'',
                 caption = '' | '', frame_file = ''frame_000001.jpg''\<rparr>],
            BuildIndex
              [\<lparr>video_id = ''0123456789'', c_start = 0, c_end = 2, transcript = ''hello'',
                 caption = '' | '', frame_file = ''frame_000001.jpg''\<rparr>]]\<rparr>) \<and>
   map caption
     (align_transcript_and_captions ''0123456789''
        [\<lparr>seg_start = 0, seg_end = 2, seg_text = Some ''hello''\<rparr>]
        [\<lparr>fd_frame_file = ''frame_000001.jpg'', fd_timestamp = 0, fd_caption = []\<rparr>,
         \<lparr>fd_frame_file = ''frame_000002.jpg'', fd_timestamp = 1, fd_caption = []\<rparr>]) =
     ['' | '']"
  by code_simp

end
